theory Spec2Isabelle
  imports Main
begin

section \<open>Go library functions used by the rulebook package\<close>

text \<open>
  Go strings are byte sequences; they are modelled as \<open>string\<close> (a list of 8-bit
  characters). The helpers of this section stand for the functions of the Go standard
  library that the package calls (\<open>strings\<close>, \<open>unicode/utf8\<close>, \<open>fmt\<close>).
\<close>

definition byte :: "char \<Rightarrow> nat" where
  "byte c = of_char c"

text \<open>\<open>strings.HasPrefix\<close>.\<close>

definition hasPrefix :: "string \<Rightarrow> string \<Rightarrow> bool" where
  "hasPrefix s p = (take (length p) s = p)"

text \<open>
  \<open>strings.TrimSpace\<close> on the ASCII white space \<open>\t \n \v \f \r\<close> and space. (Go also
  trims the UTF-8 encodings of the other Unicode white-space code points, such as U+0085
  and U+00A0; bytes from \<open>0x80\<close> on are never trimmed here.)
\<close>

definition isSpace :: "char \<Rightarrow> bool" where
  "isSpace c = (byte c = 32 \<or> (9 \<le> byte c \<and> byte c \<le> 13))"

definition trimSpace :: "string \<Rightarrow> string" where
  "trimSpace s = rev (dropWhile isSpace (rev (dropWhile isSpace s)))"

text \<open>
  \<open>strings.ToLower\<close> on ASCII letters. (Go also maps the non-ASCII upper-case letters
  of Unicode; bytes from \<open>0x80\<close> on are left as they are here.)
\<close>

definition lowerChar :: "char \<Rightarrow> char" where
  "lowerChar c = (if 65 \<le> byte c \<and> byte c \<le> 90 then char_of (byte c + 32) else c)"

definition toLower :: "string \<Rightarrow> string" where
  "toLower s = map lowerChar s"

text \<open>\<open>strings.Replace(s, old, new, -1)\<close> for a one-byte \<open>old\<close>.\<close>

definition replaceAll :: "string \<Rightarrow> char \<Rightarrow> string \<Rightarrow> string" where
  "replaceAll s old new = concat (map (\<lambda>c. if c = old then new else [c]) s)"

text \<open>\<open>strings.Split\<close> with a one-byte separator; the result is never empty.\<close>

fun split :: "string \<Rightarrow> char \<Rightarrow> string list" where
  "split [] sep = [[]]"
| "split (c # cs) sep =
     (if c = sep then [] # split cs sep
      else (c # hd (split cs sep)) # tl (split cs sep))"

text \<open>\<open>strings.Join\<close>.\<close>

fun join :: "string list \<Rightarrow> string \<Rightarrow> string" where
  "join [] sep = []"
| "join [x] sep = x"
| "join (x # y # ys) sep = x @ sep @ join (y # ys) sep"

text \<open>Decimal notation of a natural number, as \<open>%v\<close> prints a non-negative \<open>int\<close>.\<close>

fun itoa :: "nat \<Rightarrow> string" where
  "itoa n = (if n < 10 then [char_of (48 + n)]
             else itoa (n div 10) @ [char_of (48 + n mod 10)])"

declare itoa.simps [simp del]

text \<open>
  \<open>utf8.DecodeRuneInString\<close>: the rune and its width in bytes. An empty string gives
  \<open>(RuneError, 0)\<close>, an invalid encoding \<open>(RuneError, 1)\<close>. The case analysis follows
  the table \<open>first\<close> and the accept ranges of the Go implementation.
\<close>

definition RuneError :: nat where
  "RuneError = 0xFFFD"

definition cont :: "nat \<Rightarrow> bool" where
  "cont b = (0x80 \<le> b \<and> b \<le> 0xBF)"

text \<open>The size of an encoding and the range of its second byte, by its first byte.\<close>

definition runeSize :: "nat \<Rightarrow> nat" where
  "runeSize b0 = (if b0 < 0xE0 then 2 else if b0 < 0xF0 then 3 else 4)"

definition acceptLo :: "nat \<Rightarrow> nat" where
  "acceptLo b0 = (if b0 = 0xE0 then 0xA0 else if b0 = 0xF0 then 0x90 else 0x80)"

definition acceptHi :: "nat \<Rightarrow> nat" where
  "acceptHi b0 = (if b0 = 0xED then 0x9F else if b0 = 0xF4 then 0x8F else 0xBF)"

definition rune2 :: "nat \<Rightarrow> nat \<Rightarrow> nat" where
  "rune2 b0 b1 = (b0 mod 32) * 64 + b1 mod 64"

definition rune3 :: "nat \<Rightarrow> nat \<Rightarrow> nat \<Rightarrow> nat" where
  "rune3 b0 b1 b2 = (b0 mod 16) * 4096 + ((b1 mod 64) * 64 + b2 mod 64)"

definition rune4 :: "nat \<Rightarrow> nat \<Rightarrow> nat \<Rightarrow> nat \<Rightarrow> nat" where
  "rune4 b0 b1 b2 b3 =
     (b0 mod 8) * 262144 + ((b1 mod 64) * 4096 + ((b2 mod 64) * 64 + b3 mod 64))"

definition decodeRune :: "string \<Rightarrow> nat \<times> nat" where
  "decodeRune s =
     (case map byte s of
        [] \<Rightarrow> (RuneError, 0)
      | b0 # bs \<Rightarrow>
          if b0 < 0x80 then (b0, 1)
          else if b0 < 0xC2 \<or> 0xF4 < b0 then (RuneError, 1)
          else if length s < runeSize b0 then (RuneError, 1)
          else if bs ! 0 < acceptLo b0 \<or> acceptHi b0 < bs ! 0 then (RuneError, 1)
          else if runeSize b0 = 2 then (rune2 b0 (bs ! 0), 2)
          else if \<not> cont (bs ! 1) then (RuneError, 1)
          else if runeSize b0 = 3 then (rune3 b0 (bs ! 0) (bs ! 1), 3)
          else if \<not> cont (bs ! 2) then (RuneError, 1)
          else (rune4 b0 (bs ! 0) (bs ! 1) (bs ! 2), 4))"

text \<open>
  The conversion \<open>string(n)\<close> of an integer: the UTF-8 encoding of the code point, and
  of U+FFFD for a surrogate or a value beyond U+10FFFF.
\<close>

definition encodeRune :: "nat \<Rightarrow> string" where
  "encodeRune r =
     (if r < 0x80 then [char_of r]
      else if r < 0x800 then [char_of (0xC0 + r div 64), char_of (0x80 + r mod 64)]
      else if (0xD800 \<le> r \<and> r \<le> 0xDFFF) \<or> 0x10FFFF < r
        then [CHR 0xEF, CHR 0xBF, CHR 0xBD]
      else if r < 0x10000
        then [char_of (0xE0 + r div 4096), char_of (0x80 + r div 64 mod 64),
              char_of (0x80 + r mod 64)]
      else [char_of (0xF0 + r div 262144), char_of (0x80 + r div 4096 mod 64),
            char_of (0x80 + r div 64 mod 64), char_of (0x80 + r mod 64)])"

text \<open>
  \<open>fmt.Sprintf\<close> for the formats of this package: every verb is \<open>%s\<close> or \<open>%v\<close> and
  every operand is passed already printed (a string as itself, an \<open>int\<close> in decimal).
  \<open>%%\<close> prints a percent sign; a verb without operand prints \<open>%!v(MISSING)\<close>, a percent
  sign that ends the format \<open>%!(NOVERB)\<close>. Flags and widths are not modelled: no format
  of the package has one, and \<open>Build\<close> doubles every percent sign of its input.
\<close>

fun sprintf :: "string \<Rightarrow> string list \<Rightarrow> string" where
  "sprintf [] args = []"
| "sprintf [c] args = (if c = CHR ''%'' then ''%!(NOVERB)'' else [c])"
| "sprintf (c # d # cs) args =
     (if c \<noteq> CHR ''%'' then c # sprintf (d # cs) args
      else if d = CHR ''%'' then CHR ''%'' # sprintf cs args
      else (case args of
              [] \<Rightarrow> ''%!'' @ [d] @ ''(MISSING)'' @ sprintf cs []
            | a # as \<Rightarrow> a @ sprintf cs as))"

section \<open>Roman numerals (roman.go)\<close>

definition numInv :: "int \<Rightarrow> string" where
  "numInv v =
     (if v = 1000 then ''M'' else if v = 900 then ''CM'' else if v = 500 then ''D''
      else if v = 400 then ''CD'' else if v = 100 then ''C'' else if v = 90 then ''XC''
      else if v = 50 then ''L'' else if v = 40 then ''XL'' else if v = 10 then ''X''
      else if v = 9 then ''IX'' else if v = 5 then ''V'' else if v = 4 then ''IV''
      else if v = 1 then ''I'' else '''')"

definition maxTable :: "int list" where
  "maxTable = [1000, 900, 500, 400, 100, 90, 50, 40, 10, 9, 5, 4, 1]"

fun highestDecimal_loop :: "int list \<Rightarrow> int \<Rightarrow> int" where
  "highestDecimal_loop [] n = 1"
| "highestDecimal_loop (v # vs) n = (if v \<le> n then v else highestDecimal_loop vs n)"

definition highestDecimal :: "int \<Rightarrow> int" where
  "highestDecimal n = highestDecimal_loop maxTable n"

lemma highestDecimal_pos: "0 < highestDecimal n"
  by (simp add: highestDecimal_def maxTable_def)

text \<open>
  The loop of \<open>toRoman\<close>, with the accumulator \<open>out\<close>. The chapter indices it is called
  on are far below \<open>2^63\<close>, and \<open>n - v\<close> moves towards zero, so Go's \<open>int\<close> never wraps
  here and is modelled by \<open>int\<close>.
\<close>

function toRoman_loop :: "int \<Rightarrow> string \<Rightarrow> string" where
  "toRoman_loop n out =
     (if n > 0 then
        let v = highestDecimal n in toRoman_loop (n - v) (out @ numInv v)
      else out)"
  by pat_completeness auto
termination
  by (relation "measure (\<lambda>(n, out). nat n)") (use highestDecimal_pos in auto)

declare toRoman_loop.simps [simp del]

definition toRoman :: "int \<Rightarrow> string" where
  "toRoman n = toRoman_loop n ''''"

section \<open>The lexer (lex.go)\<close>

subsection \<open>Constants, items and lexer states\<close>

text \<open>
  Some names of the source are reserved words of the theory language or constants of
  HOL: the constants \<open>chapter\<close> and \<open>section\<close> are \<open>chapter_mark\<close> and
  \<open>section_mark\<close> here, the field \<open>typ\<close> is \<open>ityp\<close>, the method \<open>next\<close> is
  \<open>next_rune\<close>, and the constructor \<open>lex\<close> is \<open>lexNew\<close>.
\<close>

definition newLine :: string where "newLine = ''\<newline>''"
definition chapter_mark :: string where "chapter_mark = ''#''"
definition boldRune :: nat where "boldRune = 42"
definition emSymbol :: string where "emSymbol = ''__''"
definition section_mark :: string where "section_mark = ''##''"
definition table :: string where "table = ''-table-''"
definition annex :: string where "annex = ''ANNEX''"
definition listElement :: string where "listElement = ''\<newline>- ''"
definition cmdStart :: nat where "cmdStart = 92"
definition eof :: nat where "eof = 0"

datatype itemType =
    itemError | itemText | itemBold | itemEm | itemNewLine | itemChapter | itemSection
  | itemAnnex | itemStartListElement | itemEndListElement | itemListOpen | itemLink
  | itemCommand | itemListClose | itemTableStart | itemTableEnd | itemTableRow | itemEOF

datatype item = Item (ityp: itemType) (val: string) (line: int)

text \<open>
  A \<open>stateFn\<close> is a Go function value. The five top-level state functions are constants;
  the others are closures over the state to resume (\<open>fn\<close>) and, for two of them, over a
  string. The datatype names each closure; \<open>apply_state\<close> below runs it.
\<close>

datatype stateFn =
    LexText | LexChapter | LexSection | LexAnnex | LexListItem
  | LexBold stateFn | LexEm stateFn | LexTableTitle stateFn | LexTable stateFn
  | LexCmdName stateFn | LexCmdArgs string stateFn
  | LexLinkHead stateFn | LexLinkTail string stateFn

text \<open>
  The channel \<open>items\<close> is the list of the items sent and not yet received; \<open>state\<close> is
  \<open>None\<close> for the nil function. Positions are byte offsets and never negative.
\<close>

record lexer =
  input :: string
  start :: nat
  pos :: nat
  width :: nat
  line :: int
  items :: "item list"
  state :: "stateFn option"

definition lexNew :: "string \<Rightarrow> lexer" where
  "lexNew inp = \<lparr>input = inp, start = 0, pos = 0, width = 0, line = 1, items = [],
              state = Some LexText\<rparr>"

subsection \<open>Primitives\<close>

text \<open>The slice \<open>s[i:j]\<close>, and the rest \<open>l.input[l.pos:]\<close> of the input.\<close>

definition slice :: "string \<Rightarrow> nat \<Rightarrow> nat \<Rightarrow> string" where
  "slice s i j = take (j - i) (drop i s)"

definition rest :: "lexer \<Rightarrow> string" where
  "rest l = drop (pos l) (input l)"

definition emit :: "itemType \<Rightarrow> lexer \<Rightarrow> lexer" where
  "emit t l =
     l\<lparr>items := items l @ [Item t (slice (input l) (start l) (pos l)) (line l)],
       start := pos l\<rparr>"

definition emitCustom :: "itemType \<Rightarrow> string \<Rightarrow> lexer \<Rightarrow> lexer" where
  "emitCustom t data l = l\<lparr>items := items l @ [Item t data (line l)]\<rparr>"

definition emitTrim :: "itemType \<Rightarrow> lexer \<Rightarrow> lexer" where
  "emitTrim t l =
     l\<lparr>items := items l @ [Item t (trimSpace (slice (input l) (start l) (pos l))) (line l)],
       start := pos l\<rparr>"

definition ignore :: "lexer \<Rightarrow> lexer" where
  "ignore l = l\<lparr>start := pos l\<rparr>"

definition backup :: "lexer \<Rightarrow> lexer" where
  "backup l =
     (let p = pos l - width l in
      l\<lparr>pos := p,
        line := (if p < length (input l) \<and> input l ! p = CHR ''\<newline>''
                 then line l - 1 else line l)\<rparr>)"

definition next_rune :: "lexer \<Rightarrow> nat \<times> lexer" where
  "next_rune l =
     (if pos l \<ge> length (input l) then (eof, l\<lparr>width := 0\<rparr>)
      else
        let (r, w) = decodeRune (rest l) in
        (r, l\<lparr>width := w, pos := pos l + w,
              line := (if r = 10 then line l + 1 else line l)\<rparr>))"

text \<open>\<open>l.next()\<close> with the rune dropped, and \<open>l.pos += n\<close>.\<close>

definition skip :: "lexer \<Rightarrow> lexer" where
  "skip l = snd (next_rune l)"

definition advance :: "nat \<Rightarrow> lexer \<Rightarrow> lexer" where
  "advance n l = l\<lparr>pos := pos l + n\<rparr>"

text \<open>The recurring \<open>if l.pos > l.start { l.emit(itemText) }\<close>.\<close>

definition emitPending :: "lexer \<Rightarrow> lexer" where
  "emitPending l = (if pos l > start l then emit itemText l else l)"

text \<open>
  The recurring block after a rune that starts a construct has been read:
  \<open>if l.pos > l.start { l.backup(); l.emit(itemText); l.next() }\<close>.
\<close>

definition emitBefore :: "lexer \<Rightarrow> lexer" where
  "emitBefore l = (if pos l > start l then skip (emit itemText (backup l)) else l)"

lemma decodeRune_width: "s \<noteq> [] \<Longrightarrow> 0 < snd (decodeRune s)"
  by (cases s) (simp_all add: decodeRune_def)

lemma next_rune_input [simp]: "input (snd (next_rune l)) = input l"
  by (simp add: next_rune_def split: prod.split)

lemma next_rune_advances:
  "pos l < length (input l) \<Longrightarrow> pos l < pos (snd (next_rune l))"
proof -
  assume a: "pos l < length (input l)"
  then have "rest l \<noteq> []" by (simp add: rest_def)
  then have "0 < snd (decodeRune (rest l))" by (rule decodeRune_width)
  with a show ?thesis by (cases "decodeRune (rest l)") (simp add: next_rune_def)
qed

lemma next_rune_at_end:
  "length (input l) \<le> pos l \<Longrightarrow> next_rune l = (eof, l\<lparr>width := 0\<rparr>)"
  by (simp add: next_rune_def)

lemma next_rune_measure:
  "next_rune l = (r, l1) \<Longrightarrow> r \<noteq> eof \<Longrightarrow>
   length (input l1) - pos l1 < length (input l) - pos l"
proof -
  assume a: "next_rune l = (r, l1)" and b: "r \<noteq> eof"
  have lt: "pos l < length (input l)"
    using a b by (cases "pos l < length (input l)") (simp_all add: next_rune_def)
  have "input l1 = input l" "pos l < pos l1"
    using next_rune_input [of l] next_rune_advances [OF lt] a by simp_all
  with lt show ?thesis by simp
qed

subsection \<open>The state functions that always return\<close>

text \<open>
  Each loop \<open>for { ... }\<close> is a recursive function of the lexer; its result is the
  state function returned and the lexer it leaves. The loops of this subsection read a
  rune in every round and stop at end of input, so they are total (the measure is the
  number of bytes left).
\<close>

function lexText_loop :: "lexer \<Rightarrow> stateFn option \<times> lexer" where
  "lexText_loop l =
     (if hasPrefix (rest l) section_mark then
        (Some LexSection, ignore (skip (skip (emitPending l))))
      else if hasPrefix (rest l) table then
        (Some (LexTableTitle LexText), emitPending l)
      else if hasPrefix (rest l) annex then
        (Some LexAnnex, ignore (advance 5 (emitPending l)))
      else if hasPrefix (rest l) chapter_mark then
        (Some LexChapter, ignore (skip (emitPending l)))
      else if hasPrefix (rest l) listElement then
        (Some LexListItem,
         emit itemStartListElement (emitTrim itemListOpen
           (ignore (skip (skip (skip (emitPending l)))))))
      else if hasPrefix (rest l) newLine then
        (Some LexText, ignore (skip (emitTrim itemNewLine (emitPending l))))
      else if hasPrefix (rest l) emSymbol then
        (Some (LexEm LexText), skip (skip (emitPending l)))
      else
        let (r, l1) = next_rune l in
        if r = cmdStart then (Some (LexCmdName LexText), emitBefore l1)
        else if r = boldRune then (Some (LexBold LexText), emitBefore l1)
        else if r = 91 then (Some (LexLinkHead LexText), emitBefore l1)
        else if r = eof then
          (None, emit itemEOF (if pos l1 > start l1 then emitTrim itemText l1 else l1))
        else lexText_loop l1)"
  by pat_completeness auto
termination
  by (relation "measure (\<lambda>l. length (input l) - pos l)")
     (auto dest: next_rune_measure [OF sym])

declare lexText_loop.simps [simp del]

definition lexText :: "lexer \<Rightarrow> stateFn option \<times> lexer" where
  "lexText l = lexText_loop l"

text \<open>
  \<open>lexChapter\<close>, \<open>lexSection\<close> and \<open>lexAnnex\<close> are the same loop up to the type of
  the item they emit.
\<close>

function lexHeading_loop :: "itemType \<Rightarrow> lexer \<Rightarrow> stateFn option \<times> lexer" where
  "lexHeading_loop t l =
     (if hasPrefix (rest l) newLine then (Some LexText, emitTrim t l)
      else
        let (r, l1) = next_rune l in
        if r = eof then (Some LexText, backup l1)
        else lexHeading_loop t l1)"
  by pat_completeness auto
termination
  by (relation "measure (\<lambda>(t, l). length (input l) - pos l)")
     (auto dest: next_rune_measure [OF sym])

declare lexHeading_loop.simps [simp del]

definition lexChapter :: "lexer \<Rightarrow> stateFn option \<times> lexer" where
  "lexChapter l = lexHeading_loop itemChapter l"

definition lexSection :: "lexer \<Rightarrow> stateFn option \<times> lexer" where
  "lexSection l = lexHeading_loop itemSection l"

definition lexAnnex :: "lexer \<Rightarrow> stateFn option \<times> lexer" where
  "lexAnnex l = lexHeading_loop itemAnnex l"

function lexListItem_loop :: "lexer \<Rightarrow> stateFn option \<times> lexer" where
  "lexListItem_loop l =
     (if hasPrefix (rest l) listElement then
        (Some LexListItem,
         emit itemStartListElement (emit itemEndListElement
           (ignore (skip (skip (skip (emitPending l)))))))
      else if hasPrefix (rest l) newLine then
        (Some LexText, emitTrim itemListClose (emitTrim itemEndListElement (emitPending l)))
      else if hasPrefix (rest l) emSymbol then
        (Some (LexEm LexListItem), skip (skip (emitPending l)))
      else
        let (r, l1) = next_rune l in
        if r = boldRune then (Some (LexBold LexListItem), emitBefore l1)
        else if r = eof then (Some LexText, backup l1)
        else lexListItem_loop l1)"
  by pat_completeness auto
termination
  by (relation "measure (\<lambda>l. length (input l) - pos l)")
     (auto dest: next_rune_measure [OF sym])

declare lexListItem_loop.simps [simp del]

definition lexListItem :: "lexer \<Rightarrow> stateFn option \<times> lexer" where
  "lexListItem l = lexListItem_loop l"

subsection \<open>The state functions that return only when they find their delimiter\<close>

text \<open>
  The remaining loops have no test for the end of the input: \<open>l.next()\<close> returns \<open>eof\<close>
  there and leaves the position where it is, and the loop goes on. They are partial
  functions; \<open>None\<close> is the loop that never ends.

  \<open>scanTo c\<close> is the loop \<open>for { next := l.next(); if next == c { ... return } }\<close> up
  to the point where the rune \<open>c\<close> has been read; the six closures built on it differ in
  what they do then.
\<close>

partial_function (option) scanTo :: "nat \<Rightarrow> lexer \<Rightarrow> lexer option" where
  "scanTo c l = (case next_rune l of (r, l1) \<Rightarrow> if r = c then Some l1 else scanTo c l1)"

declare scanTo.simps [code]

definition lexBold :: "stateFn \<Rightarrow> lexer \<Rightarrow> (stateFn option \<times> lexer) option" where
  "lexBold fn l =
     map_option (\<lambda>l1. (Some fn, ignore (skip (emit itemBold (backup l1)))))
       (scanTo boldRune (ignore l))"

partial_function (option) lexEm_loop :: "lexer \<Rightarrow> lexer option" where
  "lexEm_loop l =
     (if hasPrefix (rest l) emSymbol then Some (ignore (skip (skip (emit itemEm l))))
      else lexEm_loop (skip l))"

declare lexEm_loop.simps [code]

definition lexEm :: "stateFn \<Rightarrow> lexer \<Rightarrow> (stateFn option \<times> lexer) option" where
  "lexEm fn l = map_option (\<lambda>l1. (Some fn, l1)) (lexEm_loop (ignore l))"

definition lexTableTitle :: "stateFn \<Rightarrow> lexer \<Rightarrow> (stateFn option \<times> lexer) option" where
  "lexTableTitle fn l =
     map_option (\<lambda>l1. (Some (LexTable fn), emitTrim itemTableStart l1))
       (scanTo 10 (ignore (advance (length table) l)))"

partial_function (option) lexTable_loop ::
    "stateFn \<Rightarrow> lexer \<Rightarrow> (stateFn option \<times> lexer) option" where
  "lexTable_loop fn l =
     (if hasPrefix (rest l) table then
        Some (Some fn, ignore (advance (length table) (emit itemTableEnd l)))
      else
        case next_rune l of (r, l1) \<Rightarrow>
          if r = 10 then Some (Some (LexTable fn), emitTrim itemTableRow l1)
          else lexTable_loop fn l1)"

declare lexTable_loop.simps [code]

definition lexTable :: "stateFn \<Rightarrow> lexer \<Rightarrow> (stateFn option \<times> lexer) option" where
  "lexTable fn l = lexTable_loop fn l"

definition lexCmdName :: "stateFn \<Rightarrow> lexer \<Rightarrow> (stateFn option \<times> lexer) option" where
  "lexCmdName fn l =
     map_option
       (\<lambda>l1. (Some (LexCmdArgs (slice (input l1) (start l1) (pos l1 - 1)) fn), ignore l1))
       (scanTo 40 (ignore l))"

definition lexCmdArgs ::
    "string \<Rightarrow> stateFn \<Rightarrow> lexer \<Rightarrow> (stateFn option \<times> lexer) option" where
  "lexCmdArgs cmd fn l =
     map_option
       (\<lambda>l1. let l2 = backup l1 in
          (Some fn,
           ignore (skip (emitCustom itemCommand
             (sprintf ''%s|%s'' [cmd, slice (input l2) (start l2) (pos l2)]) l2))))
       (scanTo 41 l)"

definition lexLinkHead :: "stateFn \<Rightarrow> lexer \<Rightarrow> (stateFn option \<times> lexer) option" where
  "lexLinkHead fn l =
     map_option
       (\<lambda>l1. (Some (LexLinkTail (slice (input l1) (start l1) (pos l1 - 1)) fn),
              ignore (skip l1)))
       (scanTo 93 (ignore l))"

definition lexLinkTail ::
    "string \<Rightarrow> stateFn \<Rightarrow> lexer \<Rightarrow> (stateFn option \<times> lexer) option" where
  "lexLinkTail text fn l =
     map_option
       (\<lambda>l1. let l2 = backup l1 in
          (Some fn,
           ignore (skip (emitCustom itemLink
             (sprintf ''%s|%s'' [text, slice (input l2) (start l2) (pos l2)]) l2))))
       (scanTo 41 l)"

subsection \<open>Running the state machine\<close>

text \<open>Calling the function value \<open>l.state\<close>.\<close>

fun apply_state :: "stateFn \<Rightarrow> lexer \<Rightarrow> (stateFn option \<times> lexer) option" where
  "apply_state LexText l = Some (lexText l)"
| "apply_state LexChapter l = Some (lexChapter l)"
| "apply_state LexSection l = Some (lexSection l)"
| "apply_state LexAnnex l = Some (lexAnnex l)"
| "apply_state LexListItem l = Some (lexListItem l)"
| "apply_state (LexBold fn) l = lexBold fn l"
| "apply_state (LexEm fn) l = lexEm fn l"
| "apply_state (LexTableTitle fn) l = lexTableTitle fn l"
| "apply_state (LexTable fn) l = lexTable fn l"
| "apply_state (LexCmdName fn) l = lexCmdName fn l"
| "apply_state (LexCmdArgs cmd fn) l = lexCmdArgs cmd fn l"
| "apply_state (LexLinkHead fn) l = lexLinkHead fn l"
| "apply_state (LexLinkTail text fn) l = lexLinkTail text fn l"

text \<open>
  A run-time panic of the Go program is a value: an index out of range, or the call of
  a nil function value (what \<open>nextItem\<close> does when it is called again after the item
  \<open>itemEOF\<close> has been received).
\<close>

datatype panic = IndexOutOfRange | NilCall

text \<open>
  \<open>nextItem\<close>: receive an item if the channel holds one, run the state function
  otherwise. The result is \<open>None\<close> when the call never returns.
\<close>

partial_function (option) nextItem :: "lexer \<Rightarrow> (panic + item \<times> lexer) option" where
  "nextItem l =
     (case items l of
        it # its \<Rightarrow> Some (Inr (it, l\<lparr>items := its\<rparr>))
      | [] \<Rightarrow>
          (case state l of
             None \<Rightarrow> Some (Inl NilCall)
           | Some st \<Rightarrow>
               (case apply_state st l of
                  None \<Rightarrow> None
                | Some (st', l') \<Rightarrow> nextItem (l'\<lparr>state := st'\<rparr>))))"

declare nextItem.simps [code]

section \<open>The document and its assembly (builder.go, \<open>Build\<close>)\<close>

record Section =
  Title :: string
  Items :: "item list"

record Chapter =
  Title :: string
  Items :: "item list"
  Sections :: "Section list"

record Document =
  Items :: "item list"
  Sections :: "Section list"
  Chapters :: "Chapter list"
  Annexes :: "Section list"

text \<open>
  \<open>Build\<close> keeps Go pointers into the document: \<open>sections\<close> points to a slice of
  sections, \<open>items\<close> to a slice of items. A pointer is modelled by the path from the
  document to the slice it points to. Every pointer is taken to the last element of a
  slice right after that element has been appended, and the only slices that grow later
  while a pointer into one of their elements is still in use are reached through that
  very pointer; so no pointer is ever left pointing into an array that \<open>append\<close> has
  replaced, and the path denotes the slice the Go pointer points to.
\<close>

datatype sectionsPtr = DocSections | ChapterSections nat

datatype itemsPtr =
    DocItems | ChapterItems nat | SectionItems sectionsPtr nat | AnnexItems nat

text \<open>
  The local variables of \<open>Build\<close>. \<open>chapterP\<close> and \<open>sectionP\<close> (\<open>chapter\<close> and
  \<open>section\<close> in the source) are only ever assigned.
\<close>

record assembler =
  document :: Document
  chapterP :: "nat option"
  sectionsP :: sectionsPtr
  itemsP :: itemsPtr
  sectionP :: "(sectionsPtr \<times> nat) option"

definition modify :: "nat \<Rightarrow> ('a \<Rightarrow> 'a) \<Rightarrow> 'a list \<Rightarrow> 'a list" where
  "modify i f xs = xs[i := f (xs ! i)]"

text \<open>\<open>*sections = append(*sections, s)\<close> and the length of \<open>*sections\<close>.\<close>

fun appendSection :: "sectionsPtr \<Rightarrow> Section \<Rightarrow> Document \<Rightarrow> Document" where
  "appendSection DocSections s d = d\<lparr>Document.Sections := Document.Sections d @ [s]\<rparr>"
| "appendSection (ChapterSections i) s d =
     d\<lparr>Chapters :=
         modify i (\<lambda>c. c\<lparr>Chapter.Sections := Chapter.Sections c @ [s]\<rparr>) (Chapters d)\<rparr>"

fun sectionsAt :: "sectionsPtr \<Rightarrow> Document \<Rightarrow> Section list" where
  "sectionsAt DocSections d = Document.Sections d"
| "sectionsAt (ChapterSections i) d = Chapter.Sections (Chapters d ! i)"

text \<open>\<open>*items = append(*items, it)\<close>.\<close>

definition addItem :: "item \<Rightarrow> Section \<Rightarrow> Section" where
  "addItem it s = s\<lparr>Section.Items := Section.Items s @ [it]\<rparr>"

fun appendItem :: "itemsPtr \<Rightarrow> item \<Rightarrow> Document \<Rightarrow> Document" where
  "appendItem DocItems it d = d\<lparr>Document.Items := Document.Items d @ [it]\<rparr>"
| "appendItem (ChapterItems i) it d =
     d\<lparr>Chapters := modify i (\<lambda>c. c\<lparr>Chapter.Items := Chapter.Items c @ [it]\<rparr>) (Chapters d)\<rparr>"
| "appendItem (SectionItems DocSections j) it d =
     d\<lparr>Document.Sections := modify j (addItem it) (Document.Sections d)\<rparr>"
| "appendItem (SectionItems (ChapterSections i) j) it d =
     d\<lparr>Chapters :=
         modify i (\<lambda>c. c\<lparr>Chapter.Sections := modify j (addItem it) (Chapter.Sections c)\<rparr>)
           (Chapters d)\<rparr>"
| "appendItem (AnnexItems k) it d = d\<lparr>Annexes := modify k (addItem it) (Annexes d)\<rparr>"

text \<open>The state before the loop, and the body of the loop (the \<open>switch\<close>).\<close>

definition assembler0 :: assembler where
  "assembler0 =
     \<lparr>document = \<lparr>Document.Items = [], Document.Sections = [], Chapters = [], Annexes = []\<rparr>,
      chapterP = None, sectionsP = DocSections, itemsP = DocItems, sectionP = None\<rparr>"

definition assemble :: "item \<Rightarrow> assembler \<Rightarrow> assembler" where
  "assemble it a =
     (if ityp it = itemChapter then
        let n = length (Chapters (document a)) in
        a\<lparr>document := (document a)\<lparr>Chapters := Chapters (document a) @
               [\<lparr>Chapter.Title = val it, Chapter.Items = [], Chapter.Sections = []\<rparr>]\<rparr>,
          chapterP := Some n, sectionsP := ChapterSections n, itemsP := ChapterItems n,
          sectionP := None\<rparr>
      else if ityp it = itemAnnex then
        let k = length (Annexes (document a)) in
        a\<lparr>document := (document a)\<lparr>Annexes := Annexes (document a) @
               [\<lparr>Section.Title = val it, Section.Items = []\<rparr>]\<rparr>,
          chapterP := None, itemsP := AnnexItems k\<rparr>
      else if ityp it = itemSection then
        let j = length (sectionsAt (sectionsP a) (document a)) in
        a\<lparr>document := appendSection (sectionsP a)
               \<lparr>Section.Title = val it, Section.Items = []\<rparr> (document a),
          sectionP := Some (sectionsP a, j), itemsP := SectionItems (sectionsP a) j\<rparr>
      else a\<lparr>document := appendItem (itemsP a) it (document a)\<rparr>)"

text \<open>The loop over a list of items, for the statements about token sequences.\<close>

definition assembleAll :: "item list \<Rightarrow> assembler \<Rightarrow> assembler" where
  "assembleAll its a = fold assemble its a"

section \<open>The HTML builder (builder.go)\<close>

text \<open>
  A Go \<open>error\<close> value. \<open>content\<close> is the \<open>strings.Builder\<close>: the list of the strings
  written to it, in order; \<open>String()\<close> is their concatenation, and \<open>WriteString\<close>
  always returns a nil error. \<open>tableRowIndex\<close> counts the rows of one table, which are
  items of a slice, so it stays far below \<open>2^63\<close> and the \<open>int\<close> is modelled by \<open>int\<close>.
\<close>

datatype error = IOError string | LexerError item

record BuilderConfig =
  TableOfContents :: bool

record Builder =
  err :: "error option"
  content :: "string list"
  paragraphIsOpen :: bool
  newSection :: bool
  tableRowIndex :: int
  tableTitle :: string
  Config :: BuilderConfig

definition WriteString :: "string list \<Rightarrow> string \<Rightarrow> string list \<times> error option" where
  "WriteString c s = (c @ [s], None)"

definition toAnnex :: "nat \<Rightarrow> string" where
  "toAnnex n = encodeRune (n + 65)"

text \<open>\<open>Builder.append\<close> (\<open>append\<close> is the list concatenation of HOL).\<close>

definition appendf :: "string \<Rightarrow> string list \<Rightarrow> Builder \<Rightarrow> Builder" where
  "appendf s args b =
     (if err b \<noteq> None then b
      else case WriteString (content b) (sprintf s args) of
             (c, e) \<Rightarrow> b\<lparr>content := c, err := e\<rparr>)"

definition closeParagraph :: "Builder \<Rightarrow> Builder" where
  "closeParagraph b =
     (if paragraphIsOpen b then appendf ''\<newline></p>\<newline>'' [] (b\<lparr>paragraphIsOpen := False\<rparr>)
      else b)"

definition openParagraph :: "Builder \<Rightarrow> Builder" where
  "openParagraph b =
     (if \<not> paragraphIsOpen b \<and> newSection b then
        appendf ''<p class='indent'>\<newline>'' [] (b\<lparr>paragraphIsOpen := True, newSection := False\<rparr>)
      else if \<not> paragraphIsOpen b then
        appendf ''<p>\<newline>'' [] (b\<lparr>paragraphIsOpen := True\<rparr>)
      else b)"

definition anchorName :: "string \<Rightarrow> string" where
  "anchorName s = replaceAll (toLower s) (CHR '' '') ''-''"

definition annexAnchorName :: "string \<Rightarrow> string" where
  "annexAnchorName s = sprintf ''annex-%s'' [anchorName s]"

text \<open>Indexing a slice: a panic when the index is out of range.\<close>

definition index :: "'a list \<Rightarrow> nat \<Rightarrow> panic + 'a" where
  "index xs i = (if i < length xs then Inr (xs ! i) else Inl IndexOutOfRange)"

definition bindp :: "panic + 'a \<Rightarrow> ('a \<Rightarrow> panic + 'b) \<Rightarrow> panic + 'b" where
  "bindp m f = (case m of Inl p \<Rightarrow> Inl p | Inr x \<Rightarrow> f x)"

text \<open>
  \<open>handleCommand\<close>. The operands of a call are evaluated before the call, so an index
  out of range panics before anything is appended.
\<close>

definition imgClassNames :: "string list \<Rightarrow> string list" where
  "imgClassNames args =
     (if length args > 2 then
        let position = trimSpace (args ! 2) in
        if position = ''left'' then [''illustration'', ''float-left'']
        else if position = ''right'' then [''illustration'', ''float-right'']
        else [''illustration'']
      else [''illustration''])"

definition imgSize :: "string list \<Rightarrow> panic + string \<times> string" where
  "imgSize args =
     (if length args > 3 then
        let size = trimSpace (args ! 3) in
        bindp (index size 0) (\<lambda>c.
          if c = CHR ''w'' then Inr (drop 1 size, [])
          else if c = CHR ''h'' then Inr ([], drop 1 size)
          else Inr ([], []))
      else Inr ([], []))"

definition handleCommand :: "string \<Rightarrow> string list \<Rightarrow> Builder \<Rightarrow> panic + Builder" where
  "handleCommand name args b =
     (if name = ''color'' then
        bindp (index args 1) (\<lambda>a1.
        bindp (index args 0) (\<lambda>a0.
          Inr (appendf ''<span style='color: #%s'>%s</span>'' [trimSpace a1, trimSpace a0] b)))
      else if name = ''img'' then
        let b1 = closeParagraph b;
            classNames = imgClassNames args
        in
        bindp (imgSize args) (\<lambda>(width, height).
        bindp (index args 0) (\<lambda>a0.
        bindp (index args 1) (\<lambda>a1.
          if width \<noteq> [] then
            Inr (appendf ''<img class='%s' src='%s' alt='%s' width='%s'/>''
                   [join classNames '' '', a0, trimSpace a1, width] b1)
          else if height \<noteq> [] then
            Inr (appendf ''<img class='%s' src='%s' alt='%s' height='%s'/>''
                   [join classNames '' '', a0, trimSpace a1, height] b1)
          else
            Inr (appendf ''<img class='%s' src='%s' alt='%s' />''
                   [join classNames '' '', a0, trimSpace a1] b1))))
      else Inr b)"

text \<open>The loop over the cells after the first of a table row.\<close>

fun tableCells :: "string list \<Rightarrow> Builder \<Rightarrow> Builder" where
  "tableCells [] b = b"
| "tableCells (cell # cells) b =
     tableCells cells
       (if tableRowIndex b = 0 then appendf ''<td class='head'>%s</td>\<newline>'' [cell] b
        else appendf ''<td class='lead'>%s</td>\<newline>'' [cell] b)"

text \<open>The block \<open>if b.tableRowIndex == -1 { ... }\<close>.\<close>

definition tableHeader :: "string list \<Rightarrow> Builder \<Rightarrow> Builder" where
  "tableHeader cells b =
     (if tableRowIndex b = - 1 then
        appendf ''<tbody>\<newline>'' []
          (appendf ''</thead>\<newline>'' []
            (appendf ''</tr>\<newline>'' []
              (appendf ''<th colspan='%v'>%s</th>\<newline>'' [itoa (length cells), tableTitle b]
                (appendf ''<tr>\<newline>'' []
                  (appendf ''<thead>\<newline>'' [] b)))))
      else b)"

definition handleItem :: "item \<Rightarrow> Builder \<Rightarrow> panic + Builder" where
  "handleItem it b =
     (if ityp it = itemNewLine then Inr (closeParagraph b)
      else if ityp it = itemListOpen then
        Inr (appendf ''<ol class='roman'>\<newline>'' [] (closeParagraph b))
      else if ityp it = itemListClose then Inr (appendf ''</ol>\<newline>\<newline>'' [] b)
      else if ityp it = itemStartListElement then
        Inr (openParagraph (appendf ''\<newline><li>\<newline>'' [] b))
      else if ityp it = itemEndListElement then
        Inr (appendf ''\<newline></li>\<newline>'' [] (closeParagraph b))
      else if ityp it = itemBold then
        Inr (appendf ''<strong>%s</strong>'' [val it] (openParagraph b))
      else if ityp it = itemCommand then
        let info = split (val it) (CHR ''|'') in
        bindp (index info 0) (\<lambda>name.
        bindp (index info 1) (\<lambda>args.
          handleCommand name (split args (CHR '','')) b))
      else if ityp it = itemLink then
        let b1 = openParagraph b;
            info = split (val it) (CHR ''|'')
        in
        bindp (index info 0) (\<lambda>text.
        bindp (index info 1) (\<lambda>link.
          Inr (appendf ''<a href='#%s'>%s</a>'' [anchorName link, text] b1)))
      else if ityp it = itemEm then
        Inr (appendf ''<em>%s</em>'' [val it] (openParagraph b))
      else if ityp it = itemTableStart then
        Inr (appendf ''<table>\<newline>'' []
               ((closeParagraph b)\<lparr>tableRowIndex := - 1, tableTitle := val it\<rparr>))
      else if ityp it = itemTableRow then
        let cells = split (val it) (CHR ''|'');
            b1 = tableHeader cells b;
            b2 = b1\<lparr>tableRowIndex := tableRowIndex b1 + 1\<rparr>
        in
        bindp (index cells 0) (\<lambda>c0.
          Inr (appendf ''</tr>\<newline>'' []
                 (tableCells (drop 1 cells)
                    (appendf ''<td class='head'>%s</td>\<newline>'' [c0]
                       (appendf ''<tr>\<newline>'' [] b2)))))
      else if ityp it = itemTableEnd then
        Inr (appendf ''</table>\<newline>'' [] (appendf ''</tbody>\<newline>'' [] b))
      else if val it \<noteq> [] then Inr (appendf (val it) [] (openParagraph b))
      else Inr b)"

text \<open>\<open>for _, it := range items { b.handleItem(it) }\<close>.\<close>

fun handleItems :: "item list \<Rightarrow> Builder \<Rightarrow> panic + Builder" where
  "handleItems [] b = Inr b"
| "handleItems (it # its) b = bindp (handleItem it b) (handleItems its)"

definition buildAnnex :: "Section \<Rightarrow> Builder \<Rightarrow> panic + Builder" where
  "buildAnnex a b = handleItems (Section.Items a) (b\<lparr>newSection := True\<rparr>)"

definition handleSection :: "Section \<Rightarrow> Builder \<Rightarrow> panic + Builder" where
  "handleSection s b =
     handleItems (Section.Items s)
       (appendf ''<h3><a name='%s'></a>%s</h3>\<newline>''
          [anchorName (Section.Title s), Section.Title s] (b\<lparr>newSection := True\<rparr>))"

fun handleSections :: "Section list \<Rightarrow> Builder \<Rightarrow> panic + Builder" where
  "handleSections [] b = Inr b"
| "handleSections (s # ss) b = bindp (handleSection s b) (handleSections ss)"

text \<open>\<open>buildTableOfContents\<close>; each of its three loops is a function of the slice.\<close>

fun tocSections :: "Section list \<Rightarrow> Builder \<Rightarrow> Builder" where
  "tocSections [] b = b"
| "tocSections (s # ss) b =
     tocSections ss
       (appendf ''<li><a href='#%s'>%s</a></li>\<newline>''
          [anchorName (Section.Title s), Section.Title s] b)"

fun tocChapters :: "nat \<Rightarrow> Chapter list \<Rightarrow> Builder \<Rightarrow> Builder" where
  "tocChapters chapterIndex [] b = b"
| "tocChapters chapterIndex (c # cs) b =
     tocChapters (chapterIndex + 1) cs
       (appendf ''</ol>\<newline>'' []
         (tocSections (Chapter.Sections c)
           (appendf ''<ol class='roman'>\<newline>'' []
             (appendf ''<li><strong>%s</strong> - <a href='#%s'>%s</a></li>\<newline>''
                [toRoman (int chapterIndex), anchorName (Chapter.Title c), Chapter.Title c]
                b))))"

fun tocAnnexes :: "nat \<Rightarrow> Section list \<Rightarrow> Builder \<Rightarrow> Builder" where
  "tocAnnexes annexIndex [] b = b"
| "tocAnnexes annexIndex (a # as) b =
     tocAnnexes (annexIndex + 1) as
       (appendf ''<li><strong>Annexe %s</strong>: <a href='#%s'>%s</a></li>\<newline>''
          [toAnnex annexIndex, annexAnchorName (Section.Title a), Section.Title a] b)"

definition buildTableOfContents :: "Document \<Rightarrow> Builder \<Rightarrow> Builder" where
  "buildTableOfContents d b =
     appendf ''</div>\<newline>'' []
       (appendf ''</ol>\<newline>'' []
         (tocAnnexes 0 (Annexes d)
           (appendf ''<ol>\<newline>'' []
             (appendf ''</ol>\<newline>'' []
               (tocChapters 0 (Chapters d)
                 (appendf ''<ol>\<newline>'' []
                   (appendf ''</ol>\<newline>'' []
                     (tocSections (Document.Sections d)
                       (appendf ''<ol>\<newline>'' []
                         (appendf
                            (''<div id='summary'>\<newline><h3>Table des mati''
                               @ [CHR 0xC3, CHR 0xA8]
                               @ ''res</h3>\<newline>'') [] b))))))))))"

text \<open>The loops of \<open>Builder.Build\<close> over the chapters and over the annexes.\<close>

fun buildChapters :: "nat \<Rightarrow> Chapter list \<Rightarrow> Builder \<Rightarrow> panic + Builder" where
  "buildChapters chapterIndex [] b = Inr b"
| "buildChapters chapterIndex (c # cs) b =
     bindp (handleItems (Chapter.Items c)
              (appendf ''<h2><a id='%s'></a>%s - %s</h2>\<newline>''
                 [anchorName (Chapter.Title c), toRoman (int chapterIndex), Chapter.Title c]
                 (b\<lparr>newSection := True\<rparr>)))
       (\<lambda>b1. bindp (handleSections (Chapter.Sections c) b1)
          (buildChapters (chapterIndex + 1) cs))"

fun buildAnnexes :: "nat \<Rightarrow> Section list \<Rightarrow> Builder \<Rightarrow> panic + Builder" where
  "buildAnnexes annexIndex [] b = Inr b"
| "buildAnnexes annexIndex (a # as) b =
     bindp (handleItems (Section.Items a)
              ((appendf ''<h2><a name='%s'></a>Annexe %v: %s</h2>\<newline>''
                  [annexAnchorName (Section.Title a), toAnnex annexIndex, Section.Title a]
                  (appendf ''<div class='annex'>\<newline>'' [] b))\<lparr>newSection := True\<rparr>))
       (\<lambda>b1. buildAnnexes (annexIndex + 1) as (appendf ''</div>\<newline>'' [] b1))"

text \<open>
  \<open>Builder.Build\<close>: \<open>Builder_run\<close> is the builder it leaves, \<open>Builder_Build\<close> the pair
  it returns. \<open>Document.Items\<close> is not read.
\<close>

definition Builder_run :: "Builder \<Rightarrow> Document \<Rightarrow> panic + Builder" where
  "Builder_run b d =
     (let b0 = b\<lparr>content := [], paragraphIsOpen := False\<rparr>;
          b1 = (if TableOfContents (Config b0) then buildTableOfContents d b0 else b0)
      in bindp (handleSections (Document.Sections d) b1) (\<lambda>b2.
         bindp (buildChapters 0 (Chapters d) b2) (\<lambda>b3.
         buildAnnexes 0 (Annexes d) b3)))"

definition Builder_Build :: "Builder \<Rightarrow> Document \<Rightarrow> panic + string \<times> error option" where
  "Builder_Build b d =
     bindp (Builder_run b d) (\<lambda>b'. Inr (concat (content b'), err b'))"

section \<open>The pipeline (\<open>Build\<close>)\<close>

text \<open>
  The loop of \<open>Build\<close> that receives the items and assembles the document; it returns
  the item that ended it (\<open>itemEOF\<close> or \<open>itemError\<close>) and the local variables.
\<close>

partial_function (option) Build_loop ::
    "lexer \<Rightarrow> assembler \<Rightarrow> (panic + item \<times> assembler) option" where
  "Build_loop lx a =
     (case nextItem lx of
        None \<Rightarrow> None
      | Some (Inl p) \<Rightarrow> Some (Inl p)
      | Some (Inr (it, lx')) \<Rightarrow>
          if ityp it \<noteq> itemEOF \<and> ityp it \<noteq> itemError then Build_loop lx' (assemble it a)
          else Some (Inr (it, a)))"

declare Build_loop.simps [code]

text \<open>
  \<open>Build\<close>. The reader is the result of \<open>ioutil.ReadAll\<close> (an error or the bytes read),
  the writer is the function from the bytes written to the error \<open>Write\<close> returns. The
  result is \<open>None\<close> when \<open>Build\<close> never returns, a panic, or the pair of what has been
  written to the writer (\<open>None\<close> when \<open>Write\<close> was not called) and the error returned.
\<close>

definition newBuilder :: "BuilderConfig \<Rightarrow> Builder" where
  "newBuilder config =
     \<lparr>err = None, content = [], paragraphIsOpen = False, newSection = False,
      tableRowIndex = 0, tableTitle = [], Config = config\<rparr>"

definition Build ::
    "error + string \<Rightarrow> (string \<Rightarrow> error option) \<Rightarrow> BuilderConfig
       \<Rightarrow> (panic + string option \<times> error option) option" where
  "Build inp w config =
     (case inp of
        Inl e \<Rightarrow> Some (Inr (None, Some e))
      | Inr b \<Rightarrow>
          (case Build_loop (lexNew (replaceAll b (CHR ''%'') ''%%'')) assembler0 of
             None \<Rightarrow> None
           | Some (Inl p) \<Rightarrow> Some (Inl p)
           | Some (Inr (it, a)) \<Rightarrow>
               if ityp it = itemError then Some (Inr (None, Some (LexerError it)))
               else
                 (case Builder_Build (newBuilder config) (document a) of
                    Inl p \<Rightarrow> Some (Inl p)
                  | Inr (out, e) \<Rightarrow>
                      (case e of
                         Some e' \<Rightarrow> Some (Inr (None, Some e'))
                       | None \<Rightarrow> Some (Inr (Some out, w out))))))"

section \<open>Fixtures\<close>

text \<open>The two configurations, and a writer whose \<open>Write\<close> always succeeds.\<close>

definition noTOC :: BuilderConfig where
  "noTOC = \<lparr>TableOfContents = False\<rparr>"

definition withTOC :: BuilderConfig where
  "withTOC = \<lparr>TableOfContents = True\<rparr>"

definition okWriter :: "string \<Rightarrow> error option" where
  "okWriter out = None"

section \<open>Roman numerals\<close>

lemma highestDecimal_le: "0 < n \<Longrightarrow> highestDecimal n \<le> n"
  by (simp add: highestDecimal_def maxTable_def)

section \<open>End-to-end examples\<close>

text \<open>
  C7. The input \<open>#Intro\nHello *world*.\n\<close>, without table of contents: the heading
  of the chapter is \<open><h2><a id='intro'></a> - Intro</h2>\<close>, its label the empty string
  \<open>toRoman 0\<close> and not \<open>I\<close>; one paragraph with \<open>Hello <strong>world</strong>.\<close>
  follows.
\<close>

theorem build_intro_example:
  "Build (Inr ''#Intro\<newline>Hello *world*.\<newline>'') okWriter noTOC =
   Some (Inr (Some (''<h2><a id='intro'></a> - Intro</h2>\<newline>''
                    @ ''<p class='indent'>\<newline>Hello <strong>world</strong>.\<newline></p>\<newline>''),
              None))"
  by code_simp

text \<open>
  C1. The input \<open>hello\<close> has no trigger. The lexer yields one text item, the loop of
  \<open>Build\<close> stores it in \<open>Document.Items\<close>, and \<open>Builder.Build\<close> never reads that
  field: the output is the empty string, not a paragraph.
\<close>

theorem build_plain_text_example:
  "Build_loop (lexNew ''hello'') assembler0 =
     Some (Inr (Item itemEOF [] 1,
       assembler0\<lparr>document :=
         \<lparr>Document.Items = [Item itemText ''hello'' 1], Document.Sections = [],
          Chapters = [], Annexes = []\<rparr>\<rparr>))
   \<and> Build (Inr ''hello'') okWriter noTOC = Some (Inr (Some [], None))"
  by code_simp

text \<open>
  C4. After the items of a chapter heading and of an annex heading, \<open>sections\<close> still
  points to the sections of the chapter: the section of a following section heading, and
  the text after it, are stored in the chapter.
\<close>

theorem annex_then_section_example:
  "document (assembleAll
     [Item itemChapter ''A'' 1, Item itemAnnex ''X'' 2, Item itemSection ''S'' 3,
      Item itemText ''text'' 4] assembler0) =
   \<lparr>Document.Items = [], Document.Sections = [],
    Chapters = [\<lparr>Chapter.Title = ''A'', Chapter.Items = [],
                 Chapter.Sections =
                   [\<lparr>Section.Title = ''S'', Section.Items = [Item itemText ''text'' 4]\<rparr>]\<rparr>],
    Annexes = [\<lparr>Section.Title = ''X'', Section.Items = []\<rparr>]\<rparr>
   \<and> Build (Inr ''#A\<newline>ANNEXX\<newline>##S\<newline>text\<newline>'') okWriter noTOC =
     Some (Inr (Some (''<h2><a id='a'></a> - A</h2>\<newline>''
                      @ ''<h3><a name='s'></a>S</h3>\<newline>''
                      @ ''<p class='indent'>\<newline>text\<newline></p>\<newline>''
                      @ ''<div class='annex'>\<newline>''
                      @ ''<h2><a name='annex-x'></a>Annexe A: X</h2>\<newline></div>\<newline>''),
                None))"
  by code_simp

text \<open>
  C5. A paragraph that is open at the end of the rendering is not closed (first input),
  and a paragraph that is open when a section heading is emitted is closed only after
  the heading (second input).
\<close>

theorem open_paragraph_example:
  "Build (Inr ''#A\<newline>hello'') okWriter noTOC =
     Some (Inr (Some (''<h2><a id='a'></a> - A</h2>\<newline>''
                      @ ''<p class='indent'>\<newline>hello''), None))
   \<and> Build (Inr ''#A\<newline>hello##B\<newline>'') okWriter noTOC =
     Some (Inr (Some (''<h2><a id='a'></a> - A</h2>\<newline>''
                      @ ''<p class='indent'>\<newline>hello''
                      @ ''<h3><a name='b'></a>B</h3>\<newline>''
                      @ ''\<newline></p>\<newline>''), None))"
  by code_simp

section \<open>Scanning loops without a test for the end of the input\<close>

text \<open>
  A rune below 128 is decoded from one byte only: every encoding of two to four bytes
  denotes a rune from 128 on, and so does \<open>RuneError\<close>.
\<close>

lemma mod_window:
  fixes a b k :: nat
  assumes "a * k \<le> b" "b < a * k + k"
  shows "b mod k = b - a * k"
proof -
  have "b = (b - a * k) + a * k" using assms(1) by simp
  then have "b mod k = ((b - a * k) + a * k) mod k" by simp
  also have "\<dots> = (b - a * k) mod k" by simp
  also have "\<dots> = b - a * k" using assms by (intro mod_less) simp
  finally show ?thesis .
qed

lemma rune_ge:
  fixes q k t m :: nat
  assumes "m \<le> q" "128 \<le> m * k"
  shows "128 \<le> q * k + t"
proof -
  have "m * k \<le> q * k" using assms(1) by (rule mult_le_mono1)
  with assms(2) have "128 \<le> q * k" by (rule le_trans)
  then show ?thesis by (rule trans_le_add1)
qed

lemma rune2_ge: "194 \<le> b0 \<Longrightarrow> b0 < 224 \<Longrightarrow> 128 \<le> rune2 b0 b1"
proof -
  assume "194 \<le> b0" "b0 < 224"
  then have "2 \<le> b0 mod 32" using mod_window [of 6 32 b0] by simp
  then show ?thesis unfolding rune2_def by (rule rune_ge) simp
qed

lemma rune3_ge_a: "224 < b0 \<Longrightarrow> b0 < 240 \<Longrightarrow> 128 \<le> rune3 b0 b1 b2"
proof -
  assume "224 < b0" "b0 < 240"
  then have "1 \<le> b0 mod 16" using mod_window [of 14 16 b0] by simp
  then show ?thesis unfolding rune3_def by (rule rune_ge) simp
qed

lemma rune3_ge_b: "160 \<le> b1 \<Longrightarrow> b1 \<le> 191 \<Longrightarrow> 128 \<le> rune3 b0 b1 b2"
proof -
  assume "160 \<le> b1" "b1 \<le> 191"
  then have "32 \<le> b1 mod 64" using mod_window [of 2 64 b1] by simp
  then have "128 \<le> (b1 mod 64) * 64 + b2 mod 64" by (rule rune_ge) simp
  then show ?thesis unfolding rune3_def by (rule trans_le_add2)
qed

lemma rune4_ge_a: "240 < b0 \<Longrightarrow> b0 \<le> 244 \<Longrightarrow> 128 \<le> rune4 b0 b1 b2 b3"
proof -
  assume "240 < b0" "b0 \<le> 244"
  then have "1 \<le> b0 mod 8" using mod_window [of 30 8 b0] by simp
  then show ?thesis unfolding rune4_def by (rule rune_ge) simp
qed

lemma rune4_ge_b: "144 \<le> b1 \<Longrightarrow> b1 \<le> 191 \<Longrightarrow> 128 \<le> rune4 b0 b1 b2 b3"
proof -
  assume "144 \<le> b1" "b1 \<le> 191"
  then have "16 \<le> b1 mod 64" using mod_window [of 2 64 b1] by simp
  then have "128 \<le> (b1 mod 64) * 4096 + ((b2 mod 64) * 64 + b3 mod 64)" by (rule rune_ge) simp
  then show ?thesis unfolding rune4_def by (rule trans_le_add2)
qed

lemma decodeRune_multibyte:
  assumes "128 \<le> byte c"
  shows "128 \<le> fst (decodeRune (c # cs))"
proof -
  consider "byte c < 194 \<or> 244 < byte c" | "194 \<le> byte c \<and> byte c < 224" | "byte c = 224"
    | "224 < byte c \<and> byte c < 240" | "byte c = 240" | "240 < byte c \<and> byte c \<le> 244"
    by linarith
  then show ?thesis
  proof cases
    case 1
    with assms show ?thesis by (auto simp: decodeRune_def RuneError_def)
  next
    case 2
    then show ?thesis by (simp add: decodeRune_def RuneError_def runeSize_def rune2_ge)
  next
    case 3
    then show ?thesis
      by (simp add: decodeRune_def RuneError_def runeSize_def acceptLo_def acceptHi_def rune3_ge_b)
  next
    case 4
    then show ?thesis by (simp add: decodeRune_def RuneError_def runeSize_def rune3_ge_a)
  next
    case 5
    then show ?thesis
      by (simp add: decodeRune_def RuneError_def runeSize_def acceptLo_def acceptHi_def rune4_ge_b)
  next
    case 6
    then show ?thesis by (simp add: decodeRune_def RuneError_def runeSize_def rune4_ge_a)
  qed
qed



lemma decodeRune_ascii:
  assumes "decodeRune s = (r, w)" "r < 128"
  shows "s \<noteq> [] \<and> r = byte (hd s) \<and> w = 1"
proof (cases s)
  case Nil
  with assms show ?thesis by (simp add: decodeRune_def RuneError_def)
next
  case (Cons c cs)
  have "byte c < 128"
    using decodeRune_multibyte [of c cs] assms Cons by fastforce
  with assms Cons show ?thesis by (auto simp: decodeRune_def)
qed


lemma next_rune_rest:
  "next_rune l = (r, l1) \<Longrightarrow> \<exists>w. rest l1 = drop w (rest l)"
proof (cases "pos l \<ge> length (input l)")
  case True
  assume "next_rune l = (r, l1)"
  with True have "rest l1 = drop 0 (rest l)" by (auto simp: next_rune_def rest_def)
  then show ?thesis ..
next
  case False
  assume a: "next_rune l = (r, l1)"
  obtain r' w where d: "decodeRune (rest l) = (r', w)" by (cases "decodeRune (rest l)")
  with False a have "rest l1 = drop w (rest l)"
    by (auto simp: next_rune_def rest_def add.commute)
  then show ?thesis ..
qed

lemma next_rune_found:
  assumes "next_rune l = (r, l1)" "r \<noteq> eof" "r < 128"
  shows "\<exists>ch \<in> set (rest l). byte ch = r"
proof -
  have lt: "pos l < length (input l)"
    using assms(1,2) by (cases "pos l < length (input l)") (simp_all add: next_rune_def)
  obtain w where d: "decodeRune (rest l) = (r, w)"
    using assms(1) lt by (auto simp: next_rune_def split: prod.splits)
  from decodeRune_ascii [OF d assms(3)] show ?thesis
    by (cases "rest l") auto
qed

lemma scanTo_found:
  assumes "scanTo c l = Some y" "c \<noteq> eof" "c < 128"
  shows "\<exists>ch \<in> set (rest l). byte ch = c"
proof -
  have "c \<noteq> eof \<longrightarrow> c < 128 \<longrightarrow> (\<exists>ch \<in> set (rest l). byte ch = c)"
  proof (rule scanTo.raw_induct
      [where P = "\<lambda>c l y. c \<noteq> eof \<longrightarrow> c < 128 \<longrightarrow> (\<exists>ch \<in> set (rest l). byte ch = c)",
       OF _ assms(1)])
    fix f :: "nat \<Rightarrow> lexer \<Rightarrow> lexer option" and c l y
    assume ih: "\<And>c l y. f c l = Some y \<Longrightarrow>
              c \<noteq> eof \<longrightarrow> c < 128 \<longrightarrow> (\<exists>ch \<in> set (rest l). byte ch = c)"
      and eq: "(case next_rune l of (r, l1) \<Rightarrow> if r = c then Some l1 else f c l1) = Some y"
    show "c \<noteq> eof \<longrightarrow> c < 128 \<longrightarrow> (\<exists>ch \<in> set (rest l). byte ch = c)"
    proof (intro impI)
      assume c: "c \<noteq> eof" "c < 128"
      obtain r l1 where n: "next_rune l = (r, l1)" by (cases "next_rune l")
      show "\<exists>ch \<in> set (rest l). byte ch = c"
      proof (cases "r = c")
        case True
        with next_rune_found [OF n] c show ?thesis by simp
      next
        case False
        with eq n have "f c l1 = Some y" by simp
        from ih [OF this] c obtain ch where ch: "ch \<in> set (rest l1)" "byte ch = c" by auto
        obtain w where "rest l1 = drop w (rest l)"
          using next_rune_rest [OF n] by auto
        with ch show ?thesis using in_set_dropD [of ch w "rest l"] by auto
      qed
    qed
  qed
  with assms(2,3) show ?thesis by simp
qed

lemma scanTo_absent:
  assumes "c \<noteq> eof" "c < 128" "\<forall>ch \<in> set (rest l). byte ch \<noteq> c"
  shows "scanTo c l = None"
proof (cases "scanTo c l")
  case None
  then show ?thesis .
next
  case (Some y)
  from scanTo_found [OF Some assms(1,2)] assms(3) show ?thesis by auto
qed

lemma skip_rest: "\<exists>w. rest (skip l) = drop w (rest l)"
  using next_rune_rest [of l "fst (next_rune l)" "snd (next_rune l)"] by (simp add: skip_def)

lemma lexEm_loop_found:
  assumes "lexEm_loop l = Some y"
  shows "CHR ''_'' \<in> set (rest l)"
proof (rule lexEm_loop.raw_induct [where P = "\<lambda>l y. CHR ''_'' \<in> set (rest l)", OF _ assms])
  fix f :: "lexer \<Rightarrow> lexer option" and l y
  assume ih: "\<And>l y. f l = Some y \<Longrightarrow> CHR ''_'' \<in> set (rest l)"
    and eq: "(if hasPrefix (rest l) emSymbol then Some (ignore (skip (skip (emit itemEm l))))
              else f (skip l)) = Some y"
  show "CHR ''_'' \<in> set (rest l)"
  proof (cases "hasPrefix (rest l) emSymbol")
    case True
    then have "take (length emSymbol) (rest l) = ''__''" by (simp add: hasPrefix_def emSymbol_def)
    then have "CHR ''_'' \<in> set (take (length emSymbol) (rest l))" by simp
    then show ?thesis by (rule in_set_takeD)
  next
    case False
    with eq have "f (skip l) = Some y" by simp
    from ih [OF this] have "CHR ''_'' \<in> set (rest (skip l))" .
    moreover obtain w where "rest (skip l) = drop w (rest l)" using skip_rest by auto
    ultimately show ?thesis using in_set_dropD [of "CHR ''_''" w "rest l"] by auto
  qed
qed

lemma lexEm_loop_absent: "CHR ''_'' \<notin> set (rest l) \<Longrightarrow> lexEm_loop l = None"
  using lexEm_loop_found [of l] by (cases "lexEm_loop l") auto

text \<open>
  C2. The lexer is not a finite producer on every input. On \<open>*a\<close> the first call of
  \<open>nextItem\<close> returns an empty text item and leaves the state \<open>lexBold(lexText)\<close>;
  the second call never returns, since the loop of \<open>lexBold\<close> reads \<open>eof\<close> for ever.
  On \<open>__a\<close> already the first call never returns (\<open>lexEm\<close>). No item \<open>itemEOF\<close>
  is produced, and the unterminated construct is not absorbed by the text state.
\<close>

theorem unterminated_bold_never_returns:
  "nextItem (lexNew ''*a'') =
     Some (Inr (Item itemText [] 1,
       \<lparr>input = ''*a'', start = 0, pos = 1, width = 1, line = 1, items = [],
        state = Some (LexBold LexText)\<rparr>))
   \<and> nextItem \<lparr>input = ''*a'', start = 0, pos = 1, width = 1, line = 1, items = [],
               state = Some (LexBold LexText)\<rparr> = None
   \<and> nextItem (lexNew ''__a'') = None"
proof (intro conjI)
  show "nextItem (lexNew ''*a'') =
     Some (Inr (Item itemText [] 1,
       \<lparr>input = ''*a'', start = 0, pos = 1, width = 1, line = 1, items = [],
        state = Some (LexBold LexText)\<rparr>))"
    by code_simp
  show "nextItem \<lparr>input = ''*a'', start = 0, pos = 1, width = 1, line = 1, items = [],
               state = Some (LexBold LexText)\<rparr> = None"
    by (subst nextItem.simps)
       (simp add: lexBold_def scanTo_absent boldRune_def eof_def rest_def ignore_def byte_def)
  show "nextItem (lexNew ''__a'') = None"
    apply (subst nextItem.simps)
    apply (simp add: lexNew_def lexText_def)
    apply (subst lexText_loop.simps)
    apply (simp add: rest_def hasPrefix_def section_mark_def table_def annex_def
        chapter_mark_def listElement_def newLine_def emSymbol_def)
    apply (subst nextItem.simps)
    apply (simp add: emitPending_def skip_def next_rune_def rest_def decodeRune_def byte_def
        lexEm_def lexEm_loop_absent ignore_def)
    done
qed

text \<open>
  C3. The input \<open>\x(a\<close> has an unclosed command argument list. The lexer emits an
  empty text item, \<open>lexCmdName\<close> finds the parenthesis, and the loop of \<open>lexCmdArgs\<close>
  reads \<open>eof\<close> for ever: \<open>Build\<close> never returns, so it yields no \<open>LexError\<close> result
  (no state function calls \<open>errorf\<close>).
\<close>

theorem unclosed_command_never_returns:
  "Build (Inr (CHR 0x5C # ''x(a'')) okWriter noTOC = None"
proof -
  define l1 where "l1 = \<lparr>input = CHR 0x5C # ''x(a'', start = 0, pos = 1, width = 1, line = 1,
    items = [], state = Some (LexCmdName LexText)\<rparr>"
  define l2 where "l2 = \<lparr>input = CHR 0x5C # ''x(a'', start = 3, pos = 3, width = 1, line = 1,
    items = [], state = Some (LexCmdName LexText)\<rparr>"
  have first: "nextItem (lexNew (CHR 0x5C # ''x(a'')) = Some (Inr (Item itemText [] 1, l1))"
    unfolding l1_def by code_simp
  have name: "lexCmdName LexText l1 = Some (Some (LexCmdArgs ''x'' LexText), l2)"
    unfolding l1_def l2_def by code_simp
  have args: "lexCmdArgs ''x'' LexText (l2\<lparr>state := Some (LexCmdArgs ''x'' LexText)\<rparr>) = None"
    by (simp add: lexCmdArgs_def l2_def scanTo_absent eof_def rest_def byte_def)
  have st: "items l1 = []" "state l1 = Some (LexCmdName LexText)" "items l2 = []"
    by (simp_all add: l1_def l2_def)
  have second: "nextItem l1 = None"
    apply (subst nextItem.simps)
    apply (simp add: st name)
    apply (subst nextItem.simps)
    apply (simp add: st args)
    done
  have rest: "Build_loop l1 a = None" for a
    by (subst Build_loop.simps) (simp add: second)
  have "Build_loop (lexNew (CHR 0x5C # ''x(a'')) assembler0 = None"
    by (subst Build_loop.simps) (simp add: first rest)
  then show ?thesis
    by (simp add: Build_def replaceAll_def)
qed

section \<open>Markup and counts, as the specification words them\<close>

text \<open>
  The definitions of this section are not translated from the source. They name the
  markup the specification speaks of (cells, headings, entries of the table of contents,
  list tags) and count it, so that the theorems below can state what the builder of the
  source writes. No proof below uses a property of \<open>trimSpace\<close> or \<open>toLower\<close> at a
  symbolic argument: the statements over all items and documents hold whatever these two
  library functions return.
\<close>

definition headCell :: "string \<Rightarrow> string" where
  "headCell c = ''<td class='head'>'' @ c @ ''</td>\<newline>''"

definition leadCell :: "string \<Rightarrow> string" where
  "leadCell c = ''<td class='lead'>'' @ c @ ''</td>\<newline>''"

definition titleCell :: "nat \<Rightarrow> string \<Rightarrow> string" where
  "titleCell n title =
     ''<th colspan='' @ [CHR 0x27] @ itoa n @ [CHR 0x27] @ ''>'' @ title @ ''</th>\<newline>''"

definition cellsOf :: "item \<Rightarrow> string list" where
  "cellsOf row = split (val row) (CHR ''|'')"

definition rowMarkup :: "(string \<Rightarrow> string) \<Rightarrow> item \<Rightarrow> string list" where
  "rowMarkup other row =
     [''<tr>\<newline>'', headCell (hd (cellsOf row))] @ map other (tl (cellsOf row)) @ [''</tr>\<newline>'']"

definition headerMarkup :: "string \<Rightarrow> item \<Rightarrow> string list" where
  "headerMarkup title row =
     [''<thead>\<newline>'', ''<tr>\<newline>'', titleCell (length (cellsOf row)) title, ''</tr>\<newline>'',
      ''</thead>\<newline>'', ''<tbody>\<newline>'']"

definition chapterHeading :: "string \<Rightarrow> Chapter \<Rightarrow> string" where
  "chapterHeading label c =
     ''<h2><a id='' @ [CHR 0x27] @ anchorName (Chapter.Title c) @ [CHR 0x27] @ ''></a>''
       @ label @ '' - '' @ Chapter.Title c @ ''</h2>\<newline>''"

definition tocChapterEntry :: "string \<Rightarrow> Chapter \<Rightarrow> string" where
  "tocChapterEntry label c =
     ''<li><strong>'' @ label @ ''</strong> - <a href='' @ [CHR 0x27] @ ''#''
       @ anchorName (Chapter.Title c) @ [CHR 0x27] @ ''>'' @ Chapter.Title c
       @ ''</a></li>\<newline>''"

definition tocSectionEntry :: "Section \<Rightarrow> string" where
  "tocSectionEntry s =
     ''<li><a href='' @ [CHR 0x27] @ ''#'' @ anchorName (Section.Title s) @ [CHR 0x27] @ ''>''
       @ Section.Title s @ ''</a></li>\<newline>''"

definition tocHeader :: string where
  "tocHeader = ''<div id='summary'>\<newline><h3>Table des mati'' @ [CHR 0xC3, CHR 0xA8]
                 @ ''res</h3>\<newline>''"

text \<open>
  An emission is one call of \<open>append\<close>, that is one element of \<open>content\<close>. The
  builder opens an ordered list with \<open><ol class='roman'>\<close> (and with \<open><ol>\<close> in the
  table of contents) and closes it with \<open></ol>\<close> followed by one or two line feeds.
\<close>

definition isListOpen :: "string \<Rightarrow> bool" where
  "isListOpen chunk = (chunk = ''<ol class='roman'>\<newline>'' \<or> chunk = ''<ol>\<newline>'')"

definition isListClose :: "string \<Rightarrow> bool" where
  "isListClose chunk = (chunk = ''</ol>\<newline>\<newline>'' \<or> chunk = ''</ol>\<newline>'')"

definition listOpens :: "string list \<Rightarrow> nat" where
  "listOpens chunks = length (filter isListOpen chunks)"

definition listCloses :: "string list \<Rightarrow> nat" where
  "listCloses chunks = length (filter isListClose chunks)"

definition countType :: "itemType \<Rightarrow> item list \<Rightarrow> nat" where
  "countType t its = length (filter (\<lambda>it. ityp it = t) its)"









definition chapterA :: Chapter where
  "chapterA = \<lparr>Chapter.Title = ''A'', Chapter.Items = [], Chapter.Sections = []\<rparr>"

definition oneChapter :: Document where
  "oneChapter =
     \<lparr>Document.Items = [], Document.Sections = [], Chapters = [chapterA], Annexes = []\<rparr>"


section \<open>What \<open>append\<close> and the formats write\<close>

lemma appendf_ok:
  "err b = None \<Longrightarrow> appendf s args b = b\<lparr>content := content b @ [sprintf s args]\<rparr>"
  by (simp add: appendf_def WriteString_def)

lemma sprintf_plain: "CHR ''%'' \<notin> set s \<Longrightarrow> sprintf s args = s"
  by (induction s args rule: sprintf.induct) auto

lemma sprintf_cells:
  "sprintf ''<td class='head'>%s</td>\<newline>'' [c] = headCell c"
  "sprintf ''<td class='lead'>%s</td>\<newline>'' [c] = leadCell c"
  "sprintf ''<th colspan='%v'>%s</th>\<newline>'' [n, t] = ''<th colspan='' @ [CHR 0x27] @ n @ [CHR 0x27] @ ''>'' @ t @ ''</th>\<newline>''"
  by (simp_all add: headCell_def leadCell_def)

lemma tableCells_ok:
  "err b = None \<Longrightarrow>
   tableCells cells b =
     b\<lparr>content := content b @ map (if tableRowIndex b = 0 then headCell else leadCell) cells\<rparr>"
proof (induction cells arbitrary: b)
  case Nil
  then show ?case by simp
next
  case (Cons c cells)
  then show ?case by (simp add: appendf_ok sprintf_cells del: sprintf.simps)
qed

lemma split_nonempty: "split s sep \<noteq> []"
  by (induction s) simp_all


lemma closeParagraph_err: "err b = None \<Longrightarrow> err (closeParagraph b) = None"
  by (simp add: closeParagraph_def appendf_ok)

section \<open>List tags and the error field, item by item\<close>

lemma err_appendf [simp]: "err (appendf s args b) = err b"
  by (simp add: appendf_def WriteString_def)

lemma opens_appendf:
  "listOpens (content (appendf s args b)) =
   listOpens (content b) + (if err b = None \<and> isListOpen (sprintf s args) then 1 else 0)"
  by (simp add: appendf_def WriteString_def listOpens_def)

lemma closes_appendf:
  "listCloses (content (appendf s args b)) =
   listCloses (content b) + (if err b = None \<and> isListClose (sprintf s args) then 1 else 0)"
  by (simp add: appendf_def WriteString_def listCloses_def)

lemma fields_appendf [simp]:
  "paragraphIsOpen (appendf s args b) = paragraphIsOpen b"
  "newSection (appendf s args b) = newSection b"
  "tableRowIndex (appendf s args b) = tableRowIndex b"
  "tableTitle (appendf s args b) = tableTitle b"
  "Config (appendf s args b) = Config b"
  by (simp_all add: appendf_def WriteString_def)

lemma closeParagraph_tags [simp]:
  "err (closeParagraph b) = err b"
  "listOpens (content (closeParagraph b)) = listOpens (content b)"
  "listCloses (content (closeParagraph b)) = listCloses (content b)"
  by (simp_all add: closeParagraph_def opens_appendf closes_appendf isListOpen_def isListClose_def)

lemma openParagraph_tags [simp]:
  "err (openParagraph b) = err b"
  "listOpens (content (openParagraph b)) = listOpens (content b)"
  "listCloses (content (openParagraph b)) = listCloses (content b)"
  by (simp_all add: openParagraph_def opens_appendf closes_appendf isListOpen_def isListClose_def)

lemma tableCells_tags [simp]:
  "err (tableCells cells b) = err b"
  "listOpens (content (tableCells cells b)) = listOpens (content b)"
  "listCloses (content (tableCells cells b)) = listCloses (content b)"
  by (induction cells arbitrary: b;
      simp add: opens_appendf closes_appendf isListOpen_def isListClose_def)+

lemma tableHeader_tags [simp]:
  "err (tableHeader cells b) = err b"
  "listOpens (content (tableHeader cells b)) = listOpens (content b)"
  "listCloses (content (tableHeader cells b)) = listCloses (content b)"
  "tableRowIndex (tableHeader cells b) = tableRowIndex b"
  by (simp_all add: tableHeader_def opens_appendf closes_appendf isListOpen_def isListClose_def)

lemma handleCommand_tags:
  assumes "handleCommand name args b = Inr b'"
  shows "err b' = err b \<and> listOpens (content b') = listOpens (content b)
         \<and> listCloses (content b') = listCloses (content b)"
  using assms
  by (auto simp: handleCommand_def bindp_def index_def Let_def opens_appendf closes_appendf
        isListOpen_def isListClose_def split: if_splits sum.splits prod.splits)




lemma countType_append [simp]:
  "countType t (xs @ ys) = countType t xs + countType t ys"
  by (simp add: countType_def)

lemma countType_Nil [simp]: "countType t [] = 0"
  by (simp add: countType_def)






lemma tocSections_tags [simp]:
  "err (tocSections ss b) = err b"
  "listOpens (content (tocSections ss b)) = listOpens (content b)"
  "listCloses (content (tocSections ss b)) = listCloses (content b)"
  by (induction ss arbitrary: b;
      simp add: opens_appendf closes_appendf isListOpen_def isListClose_def)+

lemma tocChapters_tags:
  "err (tocChapters n cs b) = err b"
  "err b = None \<Longrightarrow>
     listOpens (content (tocChapters n cs b)) = listOpens (content b) + length cs"
  "err b = None \<Longrightarrow>
     listCloses (content (tocChapters n cs b)) = listCloses (content b) + length cs"
  by (induction cs arbitrary: b n;
      simp add: opens_appendf closes_appendf isListOpen_def isListClose_def)+

lemma tocAnnexes_tags [simp]:
  "err (tocAnnexes n as b) = err b"
  "listOpens (content (tocAnnexes n as b)) = listOpens (content b)"
  "listCloses (content (tocAnnexes n as b)) = listCloses (content b)"
  by (induction as arbitrary: b n;
      simp add: opens_appendf closes_appendf isListOpen_def isListClose_def)+

lemma buildTableOfContents_tags:
  "err (buildTableOfContents d b) = err b"
  "err b = None \<Longrightarrow>
     listOpens (content (buildTableOfContents d b)) =
     listOpens (content b) + 3 + length (Chapters d)"
  "err b = None \<Longrightarrow>
     listCloses (content (buildTableOfContents d b)) =
     listCloses (content b) + 3 + length (Chapters d)"
  by (simp_all add: buildTableOfContents_def opens_appendf closes_appendf tocChapters_tags
        isListOpen_def isListClose_def)

lemma handleItem_err: "handleItem it b = Inr b' \<Longrightarrow> err b' = err b"
proof (cases "ityp it = itemCommand")
  case True
  assume a: "handleItem it b = Inr b'"
  with True obtain name args where "handleCommand name args b = Inr b'"
    by (auto simp: handleItem_def bindp_def index_def Let_def split: if_splits sum.splits)
  from handleCommand_tags [OF this] show ?thesis by simp
next
  case False
  assume "handleItem it b = Inr b'"
  with False show ?thesis
    by (auto simp: handleItem_def bindp_def index_def Let_def split: if_splits sum.splits)
qed

lemma handleItems_err: "handleItems its b = Inr b' \<Longrightarrow> err b' = err b"
proof (induction its arbitrary: b)
  case Nil
  then show ?case by simp
next
  case (Cons it its)
  from Cons.prems obtain b1 where "handleItem it b = Inr b1" "handleItems its b1 = Inr b'"
    by (auto simp: bindp_def split: sum.splits)
  with Cons.IH [of b1] handleItem_err [of it b b1] show ?case by simp
qed

lemma handleSections_err: "handleSections ss b = Inr b' \<Longrightarrow> err b' = err b"
proof (induction ss arbitrary: b)
  case Nil
  then show ?case by simp
next
  case (Cons s ss)
  from Cons.prems obtain b1 where h: "handleSection s b = Inr b1" "handleSections ss b1 = Inr b'"
    by (auto simp: bindp_def split: sum.splits)
  from h(1) have "err b1 = err b"
    by (auto simp: handleSection_def dest!: handleItems_err)
  with Cons.IH [OF h(2)] show ?case by simp
qed




lemma sprintf_headings:
  "sprintf ''<h2><a id='%s'></a>%s - %s</h2>\<newline>'' [anchorName (Chapter.Title c), label, Chapter.Title c]
     = chapterHeading label c"
  "sprintf ''<li><strong>%s</strong> - <a href='#%s'>%s</a></li>\<newline>''
     [label, anchorName (Chapter.Title c), Chapter.Title c] = tocChapterEntry label c"
  "sprintf ''<li><a href='#%s'>%s</a></li>\<newline>'' [anchorName (Section.Title s), Section.Title s]
     = tocSectionEntry s"
  by (simp_all add: chapterHeading_def tocChapterEntry_def tocSectionEntry_def)

lemma toRoman_zero: "toRoman 0 = []"
  by (simp add: toRoman_def toRoman_loop.simps)

lemma tocSections_ok:
  "err b = None \<Longrightarrow>
   tocSections ss b = b\<lparr>content := content b @ map tocSectionEntry ss\<rparr>"
  by (induction ss arbitrary: b) (simp_all add: appendf_ok sprintf_headings del: sprintf.simps)

lemma first_chapter_heading:
  assumes "err b = None" "Chapters d = c # cs"
    and "handleSections (Document.Sections d)
           (if TableOfContents (Config b)
            then buildTableOfContents d (b\<lparr>content := [], paragraphIsOpen := False\<rparr>)
            else b\<lparr>content := [], paragraphIsOpen := False\<rparr>) = Inr b2"
  shows "Builder_run b d =
         bindp
           (bindp (handleItems (Chapter.Items c)
                     (b2\<lparr>newSection := True, content := content b2 @ [chapterHeading [] c]\<rparr>))
              (\<lambda>b1. bindp (handleSections (Chapter.Sections c) b1) (buildChapters 1 cs)))
           (buildAnnexes 0 (Annexes d))"
proof -
  have "err b2 = None"
    using handleSections_err [OF assms(3)] assms(1) by (simp add: buildTableOfContents_tags)
  then show ?thesis
    using assms(2,3)
    by (simp add: Builder_run_def Let_def bindp_def appendf_ok sprintf_headings toRoman_zero
          del: sprintf.simps)
qed

lemma first_toc_entry:
  assumes "err b = None" "Chapters d = c # cs"
  shows "buildTableOfContents d b =
     appendf ''</div>\<newline>'' []
       (appendf ''</ol>\<newline>'' []
         (tocAnnexes 0 (Annexes d)
           (appendf ''<ol>\<newline>'' []
             (appendf ''</ol>\<newline>'' []
               (tocChapters 1 cs
                 (appendf ''</ol>\<newline>'' []
                   (tocSections (Chapter.Sections c)
                     (b\<lparr>content := content b @ [tocHeader, ''<ol>\<newline>'']
                          @ map tocSectionEntry (Document.Sections d)
                          @ [''</ol>\<newline>'', ''<ol>\<newline>'', tocChapterEntry [] c,
                             ''<ol class='roman'>\<newline>'']\<rparr>))))))))"
  using assms
  by (simp add: buildTableOfContents_def appendf_ok tocSections_ok sprintf_headings
        sprintf_plain toRoman_zero tocHeader_def del: sprintf.simps)

section \<open>Tables\<close>

lemma table_first_row:
  assumes "ityp st = itemTableStart" "ityp row = itemTableRow" "err b = None"
  shows "bindp (handleItem st b) (handleItem row) =
         Inr ((closeParagraph b)
           \<lparr>content := content (closeParagraph b) @ [''<table>\<newline>'']
              @ headerMarkup (val st) row @ rowMarkup headCell row,
            tableRowIndex := 0, tableTitle := val st\<rparr>)"
proof -
  obtain c cs where cells: "split (val row) (CHR ''|'') = c # cs"
    using split_nonempty [of "val row" "CHR ''|''"] by (cases "split (val row) (CHR ''|'')") auto
  have e: "err (closeParagraph b) = None"
    using assms(3) by (rule closeParagraph_err)
  show ?thesis
    using assms(1,2) e
    by (simp add: handleItem_def bindp_def tableHeader_def index_def cells appendf_ok
          tableCells_ok sprintf_cells sprintf_plain titleCell_def Let_def headerMarkup_def
          rowMarkup_def cellsOf_def del: sprintf.simps)
qed

lemma table_later_row:
  assumes "ityp row = itemTableRow" "err b = None" "0 \<le> tableRowIndex b"
  shows "handleItem row b =
         Inr (b\<lparr>content := content b @ rowMarkup leadCell row,
               tableRowIndex := tableRowIndex b + 1\<rparr>)"
proof -
  obtain c cs where cells: "split (val row) (CHR ''|'') = c # cs"
    using split_nonempty [of "val row" "CHR ''|''"] by (cases "split (val row) (CHR ''|'')") auto
  show ?thesis
    using assms
    by (simp add: handleItem_def bindp_def tableHeader_def index_def cells appendf_ok
          tableCells_ok sprintf_cells sprintf_plain Let_def rowMarkup_def cellsOf_def
          del: sprintf.simps)
qed

lemma table_later_rows:
  assumes "\<forall>r \<in> set rows. ityp r = itemTableRow" "err b = None" "0 \<le> tableRowIndex b"
  shows "handleItems rows b =
         Inr (b\<lparr>content := content b @ concat (map (rowMarkup leadCell) rows),
               tableRowIndex := tableRowIndex b + int (length rows)\<rparr>)"
  using assms
proof (induction rows arbitrary: b)
  case Nil
  then show ?case by simp
next
  case (Cons r rows)
  have "ityp r = itemTableRow" using Cons.prems(1) by simp
  from table_later_row [OF this Cons.prems(2,3)] Cons.prems show ?case
    by (simp add: bindp_def Cons.IH)
qed

text \<open>
  C8. A table is the item of its start followed by its rows. The first row produces the
  header block (one header cell whose column span is the number of cells of that row and
  whose text is the title recorded from the start item) and a data row; in every data row
  the first cell is a \<open>head\<close> cell; the other cells of the first data row are \<open>head\<close>
  cells, those of every later row are \<open>lead\<close> cells. The second part states the same for
  one row handled at any row index from \<open>0\<close> on.
\<close>

theorem table_row_rendering:
  assumes "ityp st = itemTableStart" "ityp row = itemTableRow"
    and "\<forall>r \<in> set rows. ityp r = itemTableRow" "err b = None"
  shows "handleItems (st # row # rows) b =
         Inr ((closeParagraph b)
           \<lparr>content := content (closeParagraph b) @ [''<table>\<newline>'']
              @ headerMarkup (val st) row @ rowMarkup headCell row
              @ concat (map (rowMarkup leadCell) rows),
            tableRowIndex := int (length rows), tableTitle := val st\<rparr>)
       \<and> (0 \<le> tableRowIndex b \<longrightarrow>
            handleItem row b =
            Inr (b\<lparr>content := content b @ rowMarkup leadCell row,
                  tableRowIndex := tableRowIndex b + 1\<rparr>))"
proof -
  define b1 where "b1 = (closeParagraph b)
           \<lparr>content := content (closeParagraph b) @ [''<table>\<newline>'']
              @ headerMarkup (val st) row @ rowMarkup headCell row,
            tableRowIndex := 0, tableTitle := val st\<rparr>"
  have e: "err b1 = None" "0 \<le> tableRowIndex b1"
    using closeParagraph_err [OF assms(4)] by (simp_all add: b1_def)
  have "handleItems (st # row # rows) b = bindp (bindp (handleItem st b) (handleItem row))
          (handleItems rows)"
    by (simp add: bindp_def split: sum.splits)
  also have "\<dots> = handleItems rows b1"
    using table_first_row [OF assms(1,2,4)] by (simp add: bindp_def b1_def)
  also have "\<dots> = Inr (b1\<lparr>content := content b1 @ concat (map (rowMarkup leadCell) rows),
               tableRowIndex := tableRowIndex b1 + int (length rows)\<rparr>)"
    using assms(3) e by (rule table_later_rows)
  finally have whole: "handleItems (st # row # rows) b =
      Inr (b1\<lparr>content := content b1 @ concat (map (rowMarkup leadCell) rows),
               tableRowIndex := tableRowIndex b1 + int (length rows)\<rparr>)" .
  have later: "handleItem row b =
            Inr (b\<lparr>content := content b @ rowMarkup leadCell row,
                  tableRowIndex := tableRowIndex b + 1\<rparr>)" if "0 \<le> tableRowIndex b"
    using assms(2,4) that by (rule table_later_row)
  from whole later show ?thesis by (simp add: b1_def)
qed

theorem table_row_rendering_witness:
  "handleItems [Item itemTableStart ''T'' 1, Item itemTableRow ''a|b'' 2,
                Item itemTableRow ''c|d'' 3] (newBuilder noTOC) =
   Inr ((newBuilder noTOC)
     \<lparr>content :=
        [''<table>\<newline>'', ''<thead>\<newline>'', ''<tr>\<newline>'', titleCell 2 ''T'', ''</tr>\<newline>'',
         ''</thead>\<newline>'', ''<tbody>\<newline>'',
         ''<tr>\<newline>'', headCell ''a'', headCell ''b'', ''</tr>\<newline>'',
         ''<tr>\<newline>'', headCell ''c'', leadCell ''d'', ''</tr>\<newline>''],
      tableRowIndex := 1, tableTitle := ''T''\<rparr>)
   \<and> handleItem (Item itemTableRow ''a|b'' 2) (newBuilder noTOC) =
     Inr ((newBuilder noTOC)
       \<lparr>content := [''<tr>\<newline>'', headCell ''a'', leadCell ''b'', ''</tr>\<newline>''],
        tableRowIndex := 1\<rparr>)"
  using table_row_rendering
    [of "Item itemTableStart ''T'' 1" "Item itemTableRow ''a|b'' 2"
        "[Item itemTableRow ''c|d'' 3]" "newBuilder noTOC"]
  by (simp add: newBuilder_def closeParagraph_def numeral_2_eq_2 headerMarkup_def
        rowMarkup_def cellsOf_def)

section \<open>Lists\<close>




section \<open>Errors and panics of the rendering\<close>




section \<open>The label of the first chapter\<close>

text \<open>
  C10. \<open>toRoman\<close> is total: its loop is defined by well-founded recursion on \<open>n\<close>,
  since every round subtracts a value \<open>v\<close> with \<open>0 < v \<le> n\<close>. It returns the
  empty string for every \<open>n \<le> 0\<close>. \<open>Builder.Build\<close> labels the chapters with
  \<open>toRoman\<close> of the index counted from \<open>0\<close>: whatever the top-level sections wrote
  before, the heading it appends for the first chapter of a document has the empty label,
  and so has the entry that \<open>buildTableOfContents\<close> appends for that chapter.
\<close>

theorem toRoman_nonpositive:
  "(n \<le> 0 \<longrightarrow> toRoman n = [])
   \<and> (0 < n \<longrightarrow> 0 < highestDecimal n \<and> highestDecimal n \<le> n
        \<and> toRoman n = numInv (highestDecimal n) @ toRoman (n - highestDecimal n))
   \<and> (err b = None \<and> Chapters d = c # cs
        \<and> handleSections (Document.Sections d)
             (if TableOfContents (Config b)
              then buildTableOfContents d (b\<lparr>content := [], paragraphIsOpen := False\<rparr>)
              else b\<lparr>content := [], paragraphIsOpen := False\<rparr>) = Inr b2 \<longrightarrow>
        Builder_run b d =
          bindp
            (bindp (handleItems (Chapter.Items c)
                      (b2\<lparr>newSection := True,
                          content := content b2 @ [chapterHeading [] c]\<rparr>))
               (\<lambda>b1. bindp (handleSections (Chapter.Sections c) b1) (buildChapters 1 cs)))
            (buildAnnexes 0 (Annexes d)))
   \<and> (err b = None \<and> Chapters d = c # cs \<longrightarrow>
        buildTableOfContents d b =
          appendf ''</div>\<newline>'' []
            (appendf ''</ol>\<newline>'' []
              (tocAnnexes 0 (Annexes d)
                (appendf ''<ol>\<newline>'' []
                  (appendf ''</ol>\<newline>'' []
                    (tocChapters 1 cs
                      (appendf ''</ol>\<newline>'' []
                        (tocSections (Chapter.Sections c)
                          (b\<lparr>content := content b @ [tocHeader, ''<ol>\<newline>'']
                               @ map tocSectionEntry (Document.Sections d)
                               @ [''</ol>\<newline>'', ''<ol>\<newline>'', tocChapterEntry [] c,
                                  ''<ol class='roman'>\<newline>'']\<rparr>)))))))))"
proof -
  have loop: "toRoman_loop m (xs @ ys) = xs @ toRoman_loop m ys" for m xs ys
  proof (induction m ys arbitrary: xs rule: toRoman_loop.induct)
    case (1 m out)
    show ?case
    proof (cases "0 < m")
      case True
      have "toRoman_loop m (xs @ out) =
            toRoman_loop (m - highestDecimal m) (xs @ (out @ numInv (highestDecimal m)))"
        using True by (subst toRoman_loop.simps) (simp add: Let_def)
      also have "\<dots> = xs @ toRoman_loop (m - highestDecimal m) (out @ numInv (highestDecimal m))"
        using True by (intro "1.IH") simp_all
      also have "\<dots> = xs @ toRoman_loop m out"
        using True by (subst (2) toRoman_loop.simps) (simp add: Let_def)
      finally show ?thesis .
    next
      case False
      then show ?thesis by (simp add: toRoman_loop.simps)
    qed
  qed
  have zero: "toRoman m = []" if "m \<le> 0" for m
    using that by (simp add: toRoman_def toRoman_loop.simps)
  have step: "toRoman m = numInv (highestDecimal m) @ toRoman (m - highestDecimal m)"
    if "0 < m" for m
  proof -
    have "toRoman m = toRoman_loop (m - highestDecimal m) (numInv (highestDecimal m) @ [])"
      using that by (simp add: toRoman_def toRoman_loop.simps [of m] Let_def)
    then show ?thesis
      unfolding loop by (simp add: toRoman_def)
  qed
  have roman: "(n \<le> 0 \<longrightarrow> toRoman n = [])
   \<and> (0 < n \<longrightarrow> 0 < highestDecimal n \<and> highestDecimal n \<le> n
        \<and> toRoman n = numInv (highestDecimal n) @ toRoman (n - highestDecimal n))"
    using zero [of n] step [of n] highestDecimal_pos [of n] highestDecimal_le [of n]
    by (simp add: zero)
  from roman first_chapter_heading [of b d c cs b2] first_toc_entry [of b d c cs]
  show ?thesis by blast
qed

theorem toRoman_nonpositive_witness:
  "toRoman 0 = [] \<and> toRoman (- 3) = []
   \<and> toRoman 4 = numInv (highestDecimal 4) @ toRoman (4 - highestDecimal 4)
   \<and> Builder_run (newBuilder noTOC) oneChapter =
       Inr ((newBuilder noTOC)\<lparr>newSection := True, content := [chapterHeading [] chapterA]\<rparr>)
   \<and> buildTableOfContents oneChapter (newBuilder withTOC) =
       (newBuilder withTOC)
         \<lparr>content := [tocHeader, ''<ol>\<newline>'', ''</ol>\<newline>'', ''<ol>\<newline>'',
                      tocChapterEntry [] chapterA, ''<ol class='roman'>\<newline>'', ''</ol>\<newline>'',
                      ''</ol>\<newline>'', ''<ol>\<newline>'', ''</ol>\<newline>'', ''</div>\<newline>'']\<rparr>"
proof -
  have h: "err (newBuilder noTOC) = None" "err (newBuilder withTOC) = None"
    "Chapters oneChapter = chapterA # []"
    "handleSections (Document.Sections oneChapter)
       (if TableOfContents (Config (newBuilder noTOC))
        then buildTableOfContents oneChapter
               ((newBuilder noTOC)\<lparr>content := [], paragraphIsOpen := False\<rparr>)
        else (newBuilder noTOC)\<lparr>content := [], paragraphIsOpen := False\<rparr>) =
     Inr (newBuilder noTOC)"
    by (simp_all add: newBuilder_def oneChapter_def noTOC_def)
  note t = toRoman_nonpositive
  from t [of 0] t [of "- 3"] t [of 4]
    t [of 0 "newBuilder noTOC" oneChapter chapterA "[]" "newBuilder noTOC"]
    t [of 0 "newBuilder withTOC" oneChapter chapterA "[]"] h
  show ?thesis
    by (simp add: bindp_def chapterA_def oneChapter_def appendf_ok sprintf_plain newBuilder_def
          del: sprintf.simps)
qed

end
